theory Spec2Isabelle
  imports Main "HOL-Library.Word"
begin

section \<open>Strings of the JavaScript runtime\<close>

text \<open>
  A JavaScript string is a sequence of UTF-16 code units; \<open>text[i]\<close>, \<open>===\<close> on
  one-character strings, \<open>includes\<close>, \<open>trim\<close> and \<open>parseInt\<close> all work on code
  units. A code unit is a 16-bit word, a string a list of them. \<open>ascii\<close> embeds an
  ASCII literal.
\<close>

type_synonym jschar = "16 word"
type_synonym jsstring = "jschar list"

definition ascii :: "string \<Rightarrow> jsstring" where
  "ascii = map of_char"

abbreviation QUOTE :: jschar where "QUOTE \<equiv> 0x22"
abbreviation COMMA :: jschar where "COMMA \<equiv> 0x2C"
abbreviation CR :: jschar where "CR \<equiv> 0x0D"
abbreviation LF :: jschar where "LF \<equiv> 0x0A"

text \<open>\<open>text[i+1]\<close>: the next code unit, \<open>undefined\<close> (here \<open>None\<close>) at the end.\<close>

fun nextChar :: "jsstring \<Rightarrow> jschar option" where
  "nextChar [] = None"
| "nextChar (d # ds) = Some d"

section \<open>parseCSV (src/App.tsx, lines 100-137)\<close>

text \<open>
  The four local variables of \<open>parseCSV\<close>. The \<open>for\<close> loop over the index \<open>i\<close> is the
  recursion of \<open>scan\<close> over the text from position \<open>i\<close> on; the extra \<open>i++\<close> of the
  doubled quote and of \<open>\r\n\<close> drops one more code unit.
\<close>

record pstate =
  rows :: "jsstring list list"
  currentRow :: "jsstring list"
  currentVal :: jsstring
  inQuote :: bool

definition initState :: pstate where
  "initState = \<lparr>rows = [], currentRow = [], currentVal = [], inQuote = False\<rparr>"

text \<open>
  The record-delimiter branch: \<open>currentRow.push(currentVal)\<close> comes first, then the
  test \<open>currentRow.length > 0 || currentVal\<close> on the row already pushed to.
\<close>

definition endRow :: "pstate \<Rightarrow> pstate" where
  "endRow s =
     (let pushed = currentRow s @ [currentVal s] in
      s\<lparr>rows := (if length pushed > 0 \<or> currentVal s \<noteq> [] then rows s @ [pushed] else rows s),
        currentRow := [], currentVal := []\<rparr>)"

function scan :: "jsstring \<Rightarrow> pstate \<Rightarrow> pstate" where
  "scan [] s = s"
| "scan (c # cs) s =
     (if c = QUOTE then
        (if inQuote s \<and> nextChar cs = Some QUOTE
         then scan (tl cs) (s\<lparr>currentVal := currentVal s @ [QUOTE]\<rparr>)
         else scan cs (s\<lparr>inQuote := \<not> inQuote s\<rparr>))
      else if c = COMMA \<and> \<not> inQuote s then
        scan cs (s\<lparr>currentRow := currentRow s @ [currentVal s], currentVal := []\<rparr>)
      else if (c = CR \<or> c = LF) \<and> \<not> inQuote s then
        (if c = CR \<and> nextChar cs = Some LF
         then scan (tl cs) (endRow s)
         else scan cs (endRow s))
      else scan cs (s\<lparr>currentVal := currentVal s @ [c]\<rparr>))"
  by pat_completeness auto
termination
  by (relation "measure (\<lambda>(cs, s). length cs)") auto

text \<open>The flush after the loop (lines 132-135).\<close>

definition flush :: "pstate \<Rightarrow> jsstring list list" where
  "flush s =
     (if currentVal s \<noteq> [] \<or> length (currentRow s) > 0
      then rows s @ [currentRow s @ [currentVal s]]
      else rows s)"

definition parseCSV :: "jsstring \<Rightarrow> jsstring list list" where
  "parseCSV text = flush (scan text initState)"


definition endsInQuote :: "jsstring \<Rightarrow> bool" where
  "endsInQuote text = inQuote (scan text initState)"

section \<open>Built-ins of the runtime used by handleCsvUpload\<close>

text \<open>
  \<open>String.prototype.includes\<close>: the pattern occurs as a contiguous run of code units.
\<close>

fun startsWith :: "jsstring \<Rightarrow> jsstring \<Rightarrow> bool" where
  "startsWith s [] = True"
| "startsWith [] (p # ps) = False"
| "startsWith (c # cs) (p # ps) = (c = p \<and> startsWith cs ps)"

fun includesStr :: "jsstring \<Rightarrow> jsstring \<Rightarrow> bool" where
  "includesStr [] pat = (pat = [])"
| "includesStr (c # cs) pat = (startsWith (c # cs) pat \<or> includesStr cs pat)"

text \<open>
  \<open>String.prototype.trim\<close> strips the WhiteSpace and LineTerminator code units of
  ECMAScript from both ends.
\<close>

definition isWhiteSpace :: "jschar \<Rightarrow> bool" where
  "isWhiteSpace c \<longleftrightarrow>
     c = 0x09 \<or> c = 0x0A \<or> c = 0x0B \<or> c = 0x0C \<or> c = 0x0D \<or> c = 0x20 \<or> c = 0xA0 \<or>
     c = 0x1680 \<or> (0x2000 \<le> c \<and> c \<le> 0x200A) \<or> c = 0x2028 \<or> c = 0x2029 \<or>
     c = 0x202F \<or> c = 0x205F \<or> c = 0x3000 \<or> c = 0xFEFF"

definition trim :: "jsstring \<Rightarrow> jsstring" where
  "trim s = rev (dropWhile isWhiteSpace (rev (dropWhile isWhiteSpace s)))"

text \<open>
  The Numbers that occur as a page number: \<open>parseInt\<close> returns \<open>NaN\<close>, an infinity, or
  a finite Number whose value is an integer, and \<open>newOutline.length + 1\<close> is an integer.
  \<open>-0\<close> is not kept apart from \<open>0\<close>: both are falsy.
\<close>

datatype jsnumber = NaN | Finite int | PosInfinity | NegInfinity

text \<open>\<open>x || y\<close> on Numbers: \<open>NaN\<close> and zero are falsy, every other Number is truthy.\<close>

definition truthy :: "jsnumber \<Rightarrow> bool" where
  "truthy v \<longleftrightarrow> v \<noteq> NaN \<and> v \<noteq> Finite 0"

definition orElse :: "jsnumber \<Rightarrow> jsnumber \<Rightarrow> jsnumber" where
  "orElse v d = (if truthy v then v else d)"

text \<open>
  \<open>parseInt(string)\<close> with no radix. First the integer it reads, \<open>mathInt\<close>: leading
  white space is skipped, one sign is read, a \<open>0x\<close>/\<open>0X\<close> prefix selects radix 16
  (radix 10 otherwise), and the longest run of digits of that radix is the value, with
  the sign; no digit at all gives \<open>NaN\<close>, here \<open>None\<close>.
\<close>

definition digitValue :: "jschar \<Rightarrow> nat option" where
  "digitValue c =
     (if 0x30 \<le> c \<and> c \<le> 0x39 then Some (unat c - 0x30)
      else if 0x61 \<le> c \<and> c \<le> 0x7A then Some (unat c - 0x61 + 10)
      else if 0x41 \<le> c \<and> c \<le> 0x5A then Some (unat c - 0x41 + 10)
      else None)"

definition isRadixDigit :: "nat \<Rightarrow> jschar \<Rightarrow> bool" where
  "isRadixDigit R c = (case digitValue c of None \<Rightarrow> False | Some d \<Rightarrow> d < R)"

definition digitsValue :: "nat \<Rightarrow> jsstring \<Rightarrow> nat" where
  "digitsValue R Z = foldl (\<lambda>acc c. acc * R + the (digitValue c)) 0 Z"

definition mathInt :: "jsstring \<Rightarrow> int option" where
  "mathInt inputString =
     (let S = dropWhile isWhiteSpace inputString;
          sign = (if nextChar S = Some 0x2D then - 1 else 1 :: int);
          S1 = (if nextChar S = Some 0x2B \<or> nextChar S = Some 0x2D then tl S else S);
          hex = (nextChar S1 = Some 0x30 \<and> (nextChar (tl S1) = Some 0x78 \<or> nextChar (tl S1) = Some 0x58));
          R = (if hex then 16 else 10);
          S2 = (if hex then drop 2 S1 else S1);
          Z = takeWhile (isRadixDigit R) S2
      in if Z = [] then None else Some (sign * int (digitsValue R Z)))"

text \<open>
  The Number \<open>parseInt\<close> returns. An integer of magnitude at most \<open>2^53\<close> is a Number
  and is returned as it is. Beyond, the runtime returns a rounding of the integer (an
  infinity from about 309 digits on), and for more than 20 significant decimal digits
  ECMAScript leaves the approximation to the implementation: what the runtime returns
  there is the parameter \<open>big\<close> of the model, so that what is proved for every \<open>big\<close>
  holds for every runtime.
\<close>

definition parseInt :: "(jsstring \<Rightarrow> jsnumber) \<Rightarrow> jsstring \<Rightarrow> jsnumber" where
  "parseInt big inputString =
     (case mathInt inputString of
        None \<Rightarrow> NaN
      | Some n \<Rightarrow> if \<bar>n\<bar> \<le> 2 ^ 53 then Finite n else big inputString)"

text \<open>
  One runtime, for concrete inputs: \<open>nearestNumber\<close> rounds the integer read to the
  nearest Number, ties to the even significand of 53 bits, and to an infinity from
  \<open>2^1024\<close> on after rounding (the rounding ECMAScript prescribes where it leaves no
  choice).
\<close>

fun bitLength :: "nat \<Rightarrow> nat" where
  "bitLength n = (if n = 0 then 0 else Suc (bitLength (n div 2)))"

declare bitLength.simps [simp del]

definition roundToDouble :: "int \<Rightarrow> jsnumber" where
  "roundToDouble n =
     (let m = nat \<bar>n\<bar>;
          e = bitLength m - 53;
          q = m div 2 ^ e;
          r = m mod 2 ^ e;
          q' = (if 2 * r > 2 ^ e \<or> (2 * r = 2 ^ e \<and> odd q) then q + 1 else q);
          v = q' * 2 ^ e
      in if v \<ge> 2 ^ 1024 then (if n < 0 then NegInfinity else PosInfinity)
         else Finite (if n < 0 then - int v else int v))"

definition nearestNumber :: "jsstring \<Rightarrow> jsnumber" where
  "nearestNumber inputString =
     (case mathInt inputString of None \<Rightarrow> NaN | Some n \<Rightarrow> roundToDouble n)"

text \<open>
  \<open>String.prototype.toLowerCase\<close> is a parameter \<open>lc\<close> of the model, so that what is
  proved for every \<open>lc\<close> holds for the runtime's Unicode mapping. \<open>asciiLower\<close> is the
  mapping on strings whose code units are ASCII or have no case (the kana of the
  markers among them); concrete inputs are evaluated with it.
\<close>

definition asciiLower :: "jsstring \<Rightarrow> jsstring" where
  "asciiLower = map (\<lambda>c. if 0x41 \<le> c \<and> c \<le> 0x5A then c + 0x20 else c)"

section \<open>types.ts\<close>

datatype Complexity = STANDARD | LIGHT | SIMPLE

datatype AppMode = SINGLE | PRESENTATION

record GeneratedImage =
  imageId :: jsstring
  url :: jsstring
  promptUsed :: jsstring

record PresentationPage =
  pageNumber :: jsnumber
  title :: jsstring
  content :: jsstring
  visualCue :: jsstring
  emphasis :: jsstring
  mood :: jsstring

record AppState =
  mode :: AppMode
  step :: int
  prompt :: jsstring
  complexity :: Complexity
  stylePreferences :: jsstring
  imageCount :: int
  generatedImages :: "GeneratedImage list"
  selectedImageId :: "jsstring option"
  isGenerating :: bool
  aiSuggestions :: "jsstring list"
  referenceImage :: "jsstring option"
  presentationOutline :: "PresentationPage list"
  isAnimationMode :: bool

text \<open>\<open>INITIAL_STATE\<close> (src/App.tsx, lines 34-48).\<close>

definition INITIAL_STATE :: AppState where
  "INITIAL_STATE =
     \<lparr>mode = SINGLE, step = 1, prompt = [], complexity = STANDARD, stylePreferences = [],
      imageCount = 2, generatedImages = [], selectedImageId = None, isGenerating = False,
      aiSuggestions = [], referenceImage = None, presentationOutline = [],
      isAnimationMode = False\<rparr>"

section \<open>handleCsvUpload (src/App.tsx, lines 152-225)\<close>

datatype jserror = TypeError

text \<open>
  The two \<open>alert\<close> messages of the handler: \<open>NoValidData\<close> is the message of line 215
  ("no valid data was found"), \<open>ReadFailed\<close> the message of the \<open>catch\<close> block,
  line 219 ("reading the CSV failed").
\<close>

datatype alert = NoValidData | ReadFailed

text \<open>The markers of line 169, as code units: the katakana words for slide and title.\<close>

definition SLIDE_JA :: jsstring where
  "SLIDE_JA = [0x30B9, 0x30E9, 0x30A4, 0x30C9]"

definition TITLE_JA :: jsstring where
  "TITLE_JA = [0x30BF, 0x30A4, 0x30C8, 0x30EB]"

text \<open>
  Lines 167-171. \<open>header[0]\<close> and \<open>header[1]\<close> are \<open>undefined\<close> when the row is
  shorter, and \<open>undefined.includes\<close> throws a TypeError; \<open>||\<close> evaluates left to
  right and stops at the first true operand. The result is \<open>startIndex\<close>.
\<close>

definition detectHeader :: "(jsstring \<Rightarrow> jsstring) \<Rightarrow> jsstring list \<Rightarrow> jserror + nat" where
  "detectHeader lc row0 =
     (case map lc row0 of
        [] \<Rightarrow> Inl TypeError
      | h0 # hs \<Rightarrow>
          if includesStr h0 SLIDE_JA \<or> includesStr h0 (ascii ''slide'') then Inr 1
          else (case hs of
                  [] \<Rightarrow> Inl TypeError
                | h1 # _ \<Rightarrow>
                    if includesStr h1 TITLE_JA \<or> includesStr h1 (ascii ''title'') then Inr 1
                    else Inr 0))"

text \<open>
  The body of the loop of lines 175-205, on one row \<open>cols\<close>; \<open>big\<close> is the parameter
  of \<open>parseInt\<close>.
\<close>

definition processRow ::
  "(jsstring \<Rightarrow> jsnumber) \<Rightarrow> jsstring list \<Rightarrow> PresentationPage list \<Rightarrow> PresentationPage list" where
  "processRow big cols newOutline =
     (let pageNum0 = Finite (int (length newOutline) + 1);
          (pageNum, title', content') =
            (if length cols \<ge> 3 then (orElse (parseInt big (cols ! 0)) pageNum0, cols ! 1, cols ! 2)
             else if length cols = 2 then (pageNum0, cols ! 0, cols ! 1)
             else if length cols = 1 then (pageNum0, [], cols ! 0)
             else (pageNum0, [], []))
      in if title' \<noteq> [] \<or> content' \<noteq> []
         then newOutline @
           [\<lparr>pageNumber = pageNum, title = trim title', content = trim content',
             visualCue = [], emphasis = [], mood = []\<rparr>]
         else newOutline)"

fun buildLoop ::
  "(jsstring \<Rightarrow> jsnumber) \<Rightarrow> jsstring list list \<Rightarrow> PresentationPage list \<Rightarrow> PresentationPage list" where
  "buildLoop big [] newOutline = newOutline"
| "buildLoop big (cols # rest) newOutline = buildLoop big rest (processRow big cols newOutline)"

text \<open>
  The callback \<open>reader.onload\<close> on the text read (lines 157-221): the new state and
  the message alerted, if any.
\<close>

definition csvOnLoad ::
  "(jsstring \<Rightarrow> jsstring) \<Rightarrow> (jsstring \<Rightarrow> jsnumber) \<Rightarrow> AppState \<Rightarrow> jsstring \<Rightarrow> AppState \<times> alert option" where
  "csvOnLoad lc big st text =
     (if text = [] then (st, None)
      else
        (case parseCSV text of
           [] \<Rightarrow> (st, None)
         | row0 # others \<Rightarrow>
             (case detectHeader lc row0 of
                Inl err \<Rightarrow> (st, Some ReadFailed)
              | Inr startIndex \<Rightarrow>
                  (let newOutline = buildLoop big (drop startIndex (row0 # others)) [] in
                   if length newOutline > 0
                   then (st\<lparr>presentationOutline := newOutline,
                            imageCount := int (length newOutline),
                            step := 2\<rparr>, None)
                   else (st, Some NoValidData)))))"

text \<open>\<open>handleCsvUpload\<close>: nothing happens without a file (line 154).\<close>

definition handleCsvUpload ::
  "(jsstring \<Rightarrow> jsstring) \<Rightarrow> (jsstring \<Rightarrow> jsnumber) \<Rightarrow> AppState \<Rightarrow> jsstring option
     \<Rightarrow> AppState \<times> alert option" where
  "handleCsvUpload lc big st file =
     (case file of None \<Rightarrow> (st, None) | Some text \<Rightarrow> csvOnLoad lc big st text)"

section \<open>The specification's notions\<close>

text \<open>
  Wrapping a value in quotes, each quote character of the value doubled (the quote
  convention of the specification's round trip).
\<close>

definition escapeQuotes :: "jsstring \<Rightarrow> jsstring" where
  "escapeQuotes v = concat (map (\<lambda>c. if c = QUOTE then [QUOTE, QUOTE] else [c]) v)"

definition quoteField :: "jsstring \<Rightarrow> jsstring" where
  "quoteField v = QUOTE # escapeQuotes v @ [QUOTE]"

text \<open>
  Replacing every record delimiter by \<open>\n\<close>: \<open>\r\n\<close> as one unit, a bare \<open>\r\<close>,
  or \<open>\n\<close>.
\<close>

fun normalizeEOL :: "jsstring \<Rightarrow> jsstring" where
  "normalizeEOL [] = []"
| "normalizeEOL (c # cs) =
     (if c = CR then
        (case cs of
           [] \<Rightarrow> [LF]
         | d # ds \<Rightarrow> if d = LF then LF # normalizeEOL ds else LF # normalizeEOL cs)
      else c # normalizeEOL cs)"

text \<open>
  The lines of a text separated by record delimiters, and their number when a single
  trailing empty line is ignored.
\<close>

fun splitLines :: "jsstring \<Rightarrow> jsstring list" where
  "splitLines [] = [[]]"
| "splitLines (c # cs) =
     (if c = CR then
        (case cs of
           [] \<Rightarrow> [[], []]
         | d # ds \<Rightarrow> if d = LF then [] # splitLines ds else [] # splitLines cs)
      else if c = LF then [] # splitLines cs
      else (case splitLines cs of [] \<Rightarrow> [[c]] | l # ls \<Rightarrow> (c # l) # ls))"

definition lineCount :: "jsstring \<Rightarrow> nat" where
  "lineCount text =
     (let ls = splitLines text in if last ls = [] then length ls - 1 else length ls)"

text \<open>The three record delimiters.\<close>

definition isEOL :: "jsstring \<Rightarrow> bool" where
  "isEOL d \<longleftrightarrow> d = [CR] \<or> d = [LF] \<or> d = [CR, LF]"

text \<open>
  The title and the content the specification derives from a row by its field count:
  three fields or more, fields 1 and 2; two fields, fields 0 and 1; one field, the
  content alone; none, nothing.
\<close>

definition derivedTitle :: "jsstring list \<Rightarrow> jsstring" where
  "derivedTitle cols =
     (if length cols \<ge> 3 then cols ! 1 else if length cols = 2 then cols ! 0 else [])"

definition derivedContent :: "jsstring list \<Rightarrow> jsstring" where
  "derivedContent cols =
     (if length cols \<ge> 3 then cols ! 2 else if length cols = 2 then cols ! 1
      else if length cols = 1 then cols ! 0 else [])"


text \<open>Something is pending: the field buffer or the row is not empty.\<close>

definition pending :: "pstate \<Rightarrow> bool" where
  "pending s \<longleftrightarrow> currentVal s \<noteq> [] \<or> currentRow s \<noteq> []"

section \<open>Evaluation and basic facts\<close>

lemmas parse_defs = parseCSV_def initState_def flush_def endRow_def endsInQuote_def ascii_def
  Let_def
lemmas int_defs = parseInt_def mathInt_def orElse_def truthy_def isWhiteSpace_def
  isRadixDigit_def digitValue_def digitsValue_def
lemmas handler_defs = handleCsvUpload_def csvOnLoad_def detectHeader_def asciiLower_def
  SLIDE_JA_def TITLE_JA_def processRow_def trim_def

lemma endRow_inQuote [simp]: "inQuote (endRow s) = inQuote s"
  by (simp add: endRow_def Let_def)

lemma notin_set_tl: "x \<notin> set xs \<Longrightarrow> x \<notin> set (tl xs)"
  by (cases xs) auto

section \<open>The quote convention\<close>

lemma scan_escaped_open:
  "inQuote s \<Longrightarrow> scan (escapeQuotes v) s = s\<lparr>currentVal := currentVal s @ v\<rparr>"
proof (induction v arbitrary: s)
  case Nil
  then show ?case by (simp add: escapeQuotes_def)
next
  case (Cons c v)
  then show ?case by (auto simp: escapeQuotes_def)
qed

lemma scan_quoted:
  "inQuote s \<Longrightarrow>
   scan (escapeQuotes v @ [QUOTE]) s = s\<lparr>currentVal := currentVal s @ v, inQuote := False\<rparr>"
  by (induction v arbitrary: s) (auto simp: escapeQuotes_def)

text \<open>
  C5, amended. For every non-empty value, the value wrapped in quotes with each of its
  quote characters doubled (field and record delimiters allowed inside) parses back to
  one row of one field, the value itself. The empty value is excluded: its wrapping
  \<open>""\<close> leaves nothing pending at the end of the input, and the flush adds no row.
\<close>

theorem C5_quote_roundtrip:
  "v \<noteq> [] \<Longrightarrow> parseCSV (quoteField v) = [[v]]"
  by (simp add: parseCSV_def quoteField_def initState_def scan_quoted flush_def)

theorem C5_quote_roundtrip_witness:
  "[0x61, COMMA, QUOTE, LF, 0x62] \<noteq> ([] :: jsstring) \<and>
   quoteField [0x61, COMMA, QUOTE, LF, 0x62] = [QUOTE, 0x61, COMMA, QUOTE, QUOTE, LF, 0x62, QUOTE] \<and>
   parseCSV [QUOTE, 0x61, COMMA, QUOTE, QUOTE, LF, 0x62, QUOTE] = [[[0x61, COMMA, QUOTE, LF, 0x62]]]"
  using C5_quote_roundtrip[of "[0x61, COMMA, QUOTE, LF, 0x62]"]
  by (simp add: quoteField_def escapeQuotes_def)

text \<open>
  C5 as stated fails at the empty value: wrapped in quotes it is the text \<open>""\<close>, which
  parses to no row at all, not to one row of one empty field.
\<close>

theorem C5_empty_value_counterexample:
  "quoteField [] = [QUOTE, QUOTE] \<and> parseCSV (quoteField []) = [] \<and>
   parseCSV (quoteField []) \<noteq> [[[]]]"
  by (simp add: quoteField_def escapeQuotes_def parse_defs)

section \<open>Line endings\<close>

lemma scan_normalizeEOL:
  "QUOTE \<notin> set cs \<Longrightarrow> \<not> inQuote s \<Longrightarrow> scan (normalizeEOL cs) s = scan cs s"
proof (induction cs arbitrary: s rule: normalizeEOL.induct)
  case 1
  then show ?case by simp
next
  case (2 c cs)
  then show ?case
    by (cases cs) auto
qed

text \<open>
  C6. On a text without quote characters, replacing every record delimiter by \<open>\n\<close>
  does not change the rows \<open>parseCSV\<close> returns.
\<close>

theorem C6_line_endings_normalize:
  "QUOTE \<notin> set text \<Longrightarrow> parseCSV (normalizeEOL text) = parseCSV text"
  by (simp add: parseCSV_def scan_normalizeEOL initState_def)

theorem C6_line_endings_normalize_witness:
  "QUOTE \<notin> set [0x61, CR, LF, 0x62, COMMA, 0x63, CR, CR, LF, 0x64, LF] \<and>
   normalizeEOL [0x61, CR, LF, 0x62, COMMA, 0x63, CR, CR, LF, 0x64, LF] =
     [0x61, LF, 0x62, COMMA, 0x63, LF, LF, 0x64, LF] \<and>
   parseCSV [0x61, LF, 0x62, COMMA, 0x63, LF, LF, 0x64, LF] =
     parseCSV [0x61, CR, LF, 0x62, COMMA, 0x63, CR, CR, LF, 0x64, LF] \<and>
   parseCSV [0x61, CR, LF, 0x62, COMMA, 0x63, CR, CR, LF, 0x64, LF] =
     [[[0x61]], [[0x62], [0x63]], [[]], [[0x64]]]"
  using C6_line_endings_normalize[of "[0x61, CR, LF, 0x62, COMMA, 0x63, CR, CR, LF, 0x64, LF]"]
  by (simp add: parse_defs)

section \<open>Row count\<close>

lemma splitLines_nonempty [simp]: "splitLines cs \<noteq> []"
  by (induction cs rule: splitLines.induct) (auto split: list.splits)

lemma splitLines_single_empty: "splitLines cs = [[]] \<longleftrightarrow> cs = []"
  by (cases cs) (auto split: list.splits)

lemma lineCount_Nil [simp]: "lineCount [] = 0"
  by (simp add: lineCount_def)

lemma lineCount_plain:
  "c \<noteq> CR \<Longrightarrow> c \<noteq> LF \<Longrightarrow> lineCount (c # cs) = (if cs = [] then 1 else lineCount cs)"
  using splitLines_single_empty[of cs]
  by (cases "splitLines cs") (auto simp: lineCount_def Let_def split: list.splits)

lemma lineCount_step:
  "splitLines x = [] # splitLines y \<Longrightarrow> lineCount x = Suc (lineCount y)"
  using splitLines_nonempty[of y]
  by (cases "splitLines y") (simp_all add: lineCount_def Let_def)

lemma lineCount_LF: "lineCount (LF # cs) = Suc (lineCount cs)"
  by (rule lineCount_step) simp

lemma lineCount_CR:
  "lineCount (CR # cs) = Suc (lineCount (if nextChar cs = Some LF then tl cs else cs))"
  by (rule lineCount_step) (cases cs; simp)

lemma flush_scan_count:
  "QUOTE \<notin> set cs \<Longrightarrow> \<not> inQuote s \<Longrightarrow>
   length (flush (scan cs s)) = length (rows s) + (if cs = [] \<and> pending s then 1 else lineCount cs)"
proof (induction cs s rule: scan.induct)
  case (1 s)
  then show ?case by (simp add: flush_def pending_def)
next
  case (2 c cs s)
  show ?case
  proof (cases "c = CR \<or> c = LF")
    case True
    then show ?thesis using 2
      by (cases cs) (auto simp: lineCount_LF lineCount_CR endRow_def Let_def pending_def)
  next
    case False
    then show ?thesis using 2
      by (auto simp: lineCount_plain pending_def)
  qed
qed

text \<open>
  C7. On a text without quote characters, \<open>parseCSV\<close> returns as many rows as the text
  has lines separated by record delimiters, a single trailing empty line not counted.
\<close>

theorem C7_row_count:
  "QUOTE \<notin> set text \<Longrightarrow> length (parseCSV text) = lineCount text"
  by (simp add: parseCSV_def flush_scan_count initState_def pending_def)

theorem C7_row_count_witness:
  "QUOTE \<notin> set [0x61, COMMA, 0x62, CR, LF, LF, 0x63, CR] \<and>
   splitLines [0x61, COMMA, 0x62, CR, LF, LF, 0x63, CR] = [[0x61, COMMA, 0x62], [], [0x63], []] \<and>
   lineCount [0x61, COMMA, 0x62, CR, LF, LF, 0x63, CR] = 3 \<and>
   length (parseCSV [0x61, COMMA, 0x62, CR, LF, LF, 0x63, CR]) = 3"
  using C7_row_count[of "[0x61, COMMA, 0x62, CR, LF, LF, 0x63, CR]"]
  by (simp add: lineCount_def)

section \<open>Scanning a text in two pieces\<close>

lemma nextChar_append: "nextChar (cs @ ds) = (if cs = [] then nextChar ds else nextChar cs)"
  by (cases cs) simp_all

text \<open>Scanning is compositional unless a two-unit token straddles the cut.\<close>

lemma scan_append:
  "\<not> (u \<noteq> [] \<and> last u = QUOTE \<and> nextChar rest = Some QUOTE) \<Longrightarrow>
   \<not> (u \<noteq> [] \<and> last u = CR \<and> nextChar rest = Some LF) \<Longrightarrow>
   scan (u @ rest) s = scan rest (scan u s)"
proof (induction u s rule: scan.induct)
  case (1 s)
  then show ?case by simp
next
  case (2 c cs s)
  show ?case
  proof (cases cs)
    case Nil
    then show ?thesis using "2.prems" by auto
  next
    case (Cons d ds)
    have nc: "nextChar (cs @ rest) = nextChar cs" and tl: "tl (cs @ rest) = tl cs @ rest"
      using Cons by simp_all
    have a: "\<not> (cs \<noteq> [] \<and> last cs = QUOTE \<and> nextChar rest = Some QUOTE)"
      and b: "\<not> (cs \<noteq> [] \<and> last cs = CR \<and> nextChar rest = Some LF)"
      using "2.prems" Cons by simp_all
    have a': "\<not> (tl cs \<noteq> [] \<and> last (tl cs) = QUOTE \<and> nextChar rest = Some QUOTE)"
      and b': "\<not> (tl cs \<noteq> [] \<and> last (tl cs) = CR \<and> nextChar rest = Some LF)"
      using a b Cons by (auto simp: last_tl split: if_splits)
    show ?thesis
      using "2.IH"(1)[OF _ _ a' b'] "2.IH"(2)[OF _ _ a b] "2.IH"(3)[OF _ _ a b]
        "2.IH"(4)[OF _ _ _ _ a' b'] "2.IH"(5)[OF _ _ _ _ a b] "2.IH"(6)[OF _ _ _ a b]
      by (simp add: nc tl)
  qed
qed

lemma scan_inQuote_plain:
  "QUOTE \<notin> set d \<Longrightarrow> inQuote (scan d s) = inQuote s"
  by (induction d s rule: scan.induct) (auto simp: notin_set_tl)

lemma scan_inQuote_append:
  assumes "QUOTE \<notin> set d"
  shows "inQuote (scan (t @ d) s) = inQuote (scan t s)"
proof (cases "t \<noteq> [] \<and> last t = CR \<and> nextChar d = Some LF")
  case False
  have "nextChar d \<noteq> Some QUOTE" using assms by (cases d) auto
  then have "scan (t @ d) s = scan d (scan t s)"
    using False by (intro scan_append) auto
  then show ?thesis by (simp add: scan_inQuote_plain assms)
next
  case True
  then obtain t' where t: "t = t' @ [CR]"
    by (metis append_butlast_last_id)
  have "scan (t' @ CR # d) s = scan (CR # d) (scan t' s)"
    by (intro scan_append) auto
  moreover have "scan (t' @ [CR]) s = scan [CR] (scan t' s)"
    by (intro scan_append) auto
  moreover have "inQuote (scan (CR # d) (scan t' s)) = inQuote (scan t' s)"
    using assms by (intro scan_inQuote_plain) auto
  moreover have "inQuote (scan [CR] (scan t' s)) = inQuote (scan t' s)"
    by (intro scan_inQuote_plain) auto
  ultimately show ?thesis
    unfolding t by (simp only: append.assoc append_Cons append_Nil)
qed

lemma scan_eol_state:
  "\<not> inQuote st \<Longrightarrow> isEOL d \<Longrightarrow> scan d st = endRow st"
  by (auto simp: isEOL_def)

lemma scan_eol_quoted:
  "inQuote st \<Longrightarrow> isEOL d \<Longrightarrow> inQuote (scan d st)"
  by (auto simp: isEOL_def)


lemma scan_after_eol:
  assumes "\<not> inQuote (scan t s)" and "isEOL d"
  shows "\<exists>st. \<not> inQuote st \<and> scan (t @ d) s = endRow st"
proof (cases "t \<noteq> [] \<and> last t = CR \<and> nextChar d = Some LF")
  case False
  have "nextChar d \<noteq> Some QUOTE" using assms(2) by (auto simp: isEOL_def)
  then have "scan (t @ d) s = scan d (scan t s)"
    using False by (intro scan_append) auto
  then show ?thesis using assms by (auto simp: scan_eol_state)
next
  case True
  then obtain t' where t: "t = t' @ [CR]"
    by (metis append_butlast_last_id)
  from True assms(2) have d: "d = [LF]" by (auto simp: isEOL_def)
  have "inQuote (scan (t' @ [CR]) s) = inQuote (scan t' s)"
    by (intro scan_inQuote_append) auto
  then have nq: "\<not> inQuote (scan t' s)" using assms(1) t by simp
  have "scan (t' @ [CR, LF]) s = scan [CR, LF] (scan t' s)"
    by (intro scan_append) auto
  also have "\<dots> = endRow (scan t' s)"
    using nq by (intro scan_eol_state) (auto simp: isEOL_def)
  finally show ?thesis using nq unfolding t d by auto
qed

lemma endRow_rows_prefix:
  "endRow (s\<lparr>rows := R @ rows s\<rparr>) = (endRow s)\<lparr>rows := R @ rows (endRow s)\<rparr>"
  by (simp add: endRow_def Let_def)

lemma scan_rows_prefix:
  "scan cs (s\<lparr>rows := R @ rows s\<rparr>) = (scan cs s)\<lparr>rows := R @ rows (scan cs s)\<rparr>"
proof (induction cs s rule: scan.induct)
  case (1 s)
  then show ?case by simp
next
  case (2 c cs s)
  have e: "endRow (s\<lparr>rows := R @ rows s\<rparr>) = (endRow s)\<lparr>rows := R @ rows (endRow s)\<rparr>"
    by (rule endRow_rows_prefix)
  have u1: "s\<lparr>rows := R @ rows s, currentVal := v\<rparr> = (s\<lparr>currentVal := v\<rparr>)\<lparr>rows := R @ rows (s\<lparr>currentVal := v\<rparr>)\<rparr>" for v
    by simp
  have u2: "s\<lparr>rows := R @ rows s, inQuote := b\<rparr> = (s\<lparr>inQuote := b\<rparr>)\<lparr>rows := R @ rows (s\<lparr>inQuote := b\<rparr>)\<rparr>" for b
    by simp
  have u3: "s\<lparr>rows := R @ rows s, currentRow := r, currentVal := v\<rparr>
      = (s\<lparr>currentRow := r, currentVal := v\<rparr>)\<lparr>rows := R @ rows (s\<lparr>currentRow := r, currentVal := v\<rparr>)\<rparr>" for r v
    by simp
  show ?case
    using 2 by (simp add: e u1 u2 u3 del: pstate.update_convs)
qed

lemma flush_rows_prefix:
  "flush (s\<lparr>rows := R @ rows s\<rparr>) = R @ flush s"
  by (simp add: flush_def)

section \<open>Unterminated quoted span\<close>

text \<open>
  C8, amended. Let the scan of \<open>pre\<close> end outside a quoted span, \<open>pre\<close> not ending in a
  quote character, so that the quote after it opens a span; let the rest of the text be
  the content \<open>v\<close> of that span, never closed, each quote character of \<open>v\<close> written
  doubled. Then the text ends inside the span, and \<open>parseCSV\<close> appends \<open>v\<close>, field and
  record delimiters included and each doubled quote as one quote, to the field pending
  before the opening quote, and returns it as the last field of the last row. When
  \<open>v\<close> is empty and no field or row was pending, no row is returned for the span.
  \<open>parseCSV\<close> is a total function: there is no error to raise.
\<close>

theorem C8_unterminated_quote:
  assumes "\<not> endsInQuote pre" and "pre = [] \<or> last pre \<noteq> QUOTE"
  shows "endsInQuote (pre @ QUOTE # escapeQuotes v) \<and>
     parseCSV (pre @ QUOTE # escapeQuotes v) =
       (let s = scan pre initState in
        if v \<noteq> [] \<or> pending s
        then rows s @ [currentRow s @ [currentVal s @ v]] else rows s)"
proof -
  have "scan (pre @ QUOTE # escapeQuotes v) initState
      = scan (QUOTE # escapeQuotes v) (scan pre initState)"
    using assms(2) by (intro scan_append) auto
  also have "\<dots> = scan (escapeQuotes v) ((scan pre initState)\<lparr>inQuote := True\<rparr>)"
    using assms(1) by (simp add: endsInQuote_def)
  also have "\<dots> = (scan pre initState)
      \<lparr>inQuote := True, currentVal := currentVal (scan pre initState) @ v\<rparr>"
    by (simp add: scan_escaped_open)
  finally show ?thesis
    by (auto simp: parseCSV_def flush_def Let_def endsInQuote_def pending_def)
qed

theorem C8_unterminated_quote_witness:
  "\<not> endsInQuote [0x78, LF, 0x61, COMMA, 0x62] \<and>
   escapeQuotes [0x63, COMMA, QUOTE, 0x64, LF, 0x65] = [0x63, COMMA, QUOTE, QUOTE, 0x64, LF, 0x65] \<and>
   endsInQuote [0x78, LF, 0x61, COMMA, 0x62, QUOTE, 0x63, COMMA, QUOTE, QUOTE, 0x64, LF, 0x65] \<and>
   parseCSV [0x78, LF, 0x61, COMMA, 0x62, QUOTE, 0x63, COMMA, QUOTE, QUOTE, 0x64, LF, 0x65] =
     [[[0x78]], [[0x61], [0x62, 0x63, COMMA, QUOTE, 0x64, LF, 0x65]]]"
  using C8_unterminated_quote[of "[0x78, LF, 0x61, COMMA, 0x62]" "[0x63, COMMA, QUOTE, 0x64, LF, 0x65]"]
  by (simp add: escapeQuotes_def parse_defs pending_def)

text \<open>
  C8 as stated fails twice. The text \<open>"a""b\<close> ends inside the span its first
  character opens; the text after that quote is \<open>a""b\<close>, and the field returned is
  \<open>a"b\<close>. The text of a single quote character ends inside a span too, and no row is
  returned for it: there is no final field.
\<close>

theorem C8_unterminated_quote_counterexample:
  "endsInQuote [QUOTE, 0x61, QUOTE, QUOTE, 0x62] \<and>
   parseCSV [QUOTE, 0x61, QUOTE, QUOTE, 0x62] = [[[0x61, QUOTE, 0x62]]] \<and>
   last (last (parseCSV [QUOTE, 0x61, QUOTE, QUOTE, 0x62])) \<noteq> [0x61, QUOTE, QUOTE, 0x62] \<and>
   endsInQuote [QUOTE] \<and> parseCSV [QUOTE] = []"
  by (simp add: parse_defs)

section \<open>Rows are never empty\<close>

lemma scan_rows_nonempty:
  "\<forall>r \<in> set (rows s). r \<noteq> [] \<Longrightarrow> \<forall>r \<in> set (rows (scan cs s)). r \<noteq> []"
  by (induction cs s rule: scan.induct) (auto simp: endRow_def Let_def)

lemma parseCSV_rows_nonempty: "\<forall>r \<in> set (parseCSV input). r \<noteq> []"
  using scan_rows_nonempty[of initState input]
  by (auto simp: parseCSV_def flush_def initState_def)

lemma blank_line:
  assumes "\<not> endsInQuote t1" and "isEOL d1" and "isEOL d2"
    and "\<not> (d1 = [CR] \<and> d2 = [LF])" and "\<not> (d2 = [CR] \<and> nextChar t2 = Some LF)"
  shows "parseCSV (t1 @ d1 @ d2 @ t2) = parseCSV (t1 @ d1) @ [[]] # parseCSV t2"
proof -
  obtain st where st: "\<not> inQuote st" "scan (t1 @ d1) initState = endRow st"
    using scan_after_eol[OF assms(1)[unfolded endsInQuote_def] assms(2)] by blast
  let ?u = "endRow st"
  have u: "currentRow ?u = []" "currentVal ?u = []" "\<not> inQuote ?u"
    using st(1) by (simp_all add: endRow_def Let_def)
  have pu: "parseCSV (t1 @ d1) = rows ?u"
    using u by (simp add: parseCSV_def st(2) flush_def)
  have "d1 \<noteq> []" "last d1 \<noteq> QUOTE" "last d1 = CR \<longrightarrow> d1 = [CR]" "nextChar (d2 @ t2) = Some LF \<longrightarrow> d2 = [LF]"
    using assms(2,3) by (auto simp: isEOL_def)
  then have "scan ((t1 @ d1) @ d2 @ t2) initState = scan (d2 @ t2) ?u"
    unfolding st(2)[symmetric] using assms(4) by (intro scan_append) auto
  also have "\<dots> = scan t2 (scan d2 ?u)"
    using assms(3,5) by (intro scan_append) (auto simp: isEOL_def)
  also have "scan d2 ?u = endRow ?u"
    using u(3) assms(3) by (rule scan_eol_state)
  also have "endRow ?u = initState\<lparr>rows := (rows ?u @ [[[]]]) @ rows initState\<rparr>"
    using u by (simp add: endRow_def initState_def Let_def)
  also note scan_rows_prefix[of t2 "rows ?u @ [[[]]]" initState]
  finally have "scan (t1 @ d1 @ d2 @ t2) initState
      = (scan t2 initState)\<lparr>rows := (rows ?u @ [[[]]]) @ rows (scan t2 initState)\<rparr>"
    by simp
  then have "parseCSV (t1 @ d1 @ d2 @ t2) = (rows ?u @ [[[]]]) @ parseCSV t2"
    by (simp only: parseCSV_def flush_rows_prefix)
  then show ?thesis by (simp add: pu)
qed

text \<open>
  C9. Every row \<open>parseCSV\<close> returns has at least one field; the empty text gives no
  row; and a blank line gives the row of one empty field: after a text that ends in a
  record delimiter read outside a quoted span, a second record delimiter adds exactly
  the row \<open>[[]]\<close> between the rows before it and the rows of the rest. (\<open>\r\<close> then
  \<open>\n\<close> is one delimiter, not two, hence the two exclusions.)
\<close>

theorem C9_rows_have_a_field:
  "(\<forall>r \<in> set (parseCSV text). r \<noteq> []) \<and> parseCSV [] = [] \<and>
   (\<not> endsInQuote t1 \<and> isEOL d1 \<and> isEOL d2 \<and> \<not> (d1 = [CR] \<and> d2 = [LF]) \<and>
    \<not> (d2 = [CR] \<and> nextChar t2 = Some LF) \<longrightarrow>
    parseCSV (t1 @ d1 @ d2 @ t2) = parseCSV (t1 @ d1) @ [[]] # parseCSV t2)"
proof -
  have "parseCSV [] = []"
    by (simp add: parse_defs)
  then show ?thesis
    using parseCSV_rows_nonempty[of "text"] blank_line[of t1 d1 d2 t2] by blast
qed

theorem C9_rows_have_a_field_witness:
  "parseCSV [0x61, COMMA, 0x62, CR, LF, CR, 0x63] = [[[0x61], [0x62]], [[]], [[0x63]]] \<and>
   \<not> endsInQuote [0x61, COMMA, 0x62] \<and> isEOL [CR, LF] \<and> isEOL [CR] \<and>
   parseCSV [0x61, COMMA, 0x62, CR, LF] = [[[0x61], [0x62]]] \<and> parseCSV [0x63] = [[[0x63]]] \<and>
   parseCSV [LF, LF] = [[[]], [[]]] \<and> parseCSV [] = []"
  using C9_rows_have_a_field[of "[0x61, COMMA, 0x62, CR, LF, CR, 0x63]" "[0x61, COMMA, 0x62]" "[CR, LF]" "[CR]" "[0x63]"]
  by (simp add: parse_defs isEOL_def)

section \<open>The outline loop\<close>

lemma processRow_derived:
  "processRow big cols acc =
     (if derivedTitle cols \<noteq> [] \<or> derivedContent cols \<noteq> []
      then acc @
        [\<lparr>pageNumber = (if length cols \<ge> 3 then orElse (parseInt big (cols ! 0)) (Finite (int (length acc) + 1))
                        else Finite (int (length acc) + 1)),
          title = trim (derivedTitle cols), content = trim (derivedContent cols),
          visualCue = [], emphasis = [], mood = []\<rparr>]
      else acc)"
  by (simp add: processRow_def derivedTitle_def derivedContent_def Let_def)

lemma buildLoop_titles:
  "map (\<lambda>p. (title p, content p)) (buildLoop big rs acc) =
     map (\<lambda>p. (title p, content p)) acc @
     map (\<lambda>cols. (trim (derivedTitle cols), trim (derivedContent cols)))
       (filter (\<lambda>cols. derivedTitle cols \<noteq> [] \<or> derivedContent cols \<noteq> []) rs)"
  by (induction rs arbitrary: acc) (simp_all add: processRow_derived)

lemma derived_all_empty:
  "\<forall>f \<in> set cols. f = [] \<Longrightarrow> derivedTitle cols = [] \<and> derivedContent cols = []"
  by (simp add: derivedTitle_def derivedContent_def)

lemma buildLoop_empty_iff:
  "buildLoop big rs [] = [] \<longleftrightarrow>
     (\<forall>cols \<in> set rs. derivedTitle cols = [] \<and> derivedContent cols = [])"
proof -
  have "buildLoop big rs [] = [] \<longleftrightarrow> map (\<lambda>p. (title p, content p)) (buildLoop big rs []) = []"
    by simp
  also have "\<dots> \<longleftrightarrow>
      filter (\<lambda>cols. derivedTitle cols \<noteq> [] \<or> derivedContent cols \<noteq> []) rs = []"
    unfolding buildLoop_titles by simp
  also have "\<dots> \<longleftrightarrow> (\<forall>cols \<in> set rs. derivedTitle cols = [] \<and> derivedContent cols = [])"
    by (simp add: filter_empty_conv)
  finally show ?thesis .
qed

lemma processRow_truthy:
  "\<forall>p \<in> set acc. truthy (pageNumber p) \<Longrightarrow>
   \<forall>p \<in> set (processRow big cols acc). truthy (pageNumber p)"
  by (auto simp: processRow_derived orElse_def truthy_def)

lemma buildLoop_truthy:
  "\<forall>p \<in> set acc. truthy (pageNumber p) \<Longrightarrow>
   \<forall>p \<in> set (buildLoop big rs acc). truthy (pageNumber p)"
proof (induction rs arbitrary: acc)
  case Nil
  then show ?case by simp
next
  case (Cons cols rs)
  from Cons.IH[OF processRow_truthy[OF Cons.prems]] show ?case by simp
qed

lemma csvOnLoad_cases:
  "csvOnLoad lc big st input = (st, None) \<or> csvOnLoad lc big st input = (st, Some ReadFailed) \<or>
   csvOnLoad lc big st input = (st, Some NoValidData) \<or>
   (\<exists>k pages. pages \<noteq> [] \<and> pages = buildLoop big (drop k (parseCSV input)) [] \<and>
      csvOnLoad lc big st input =
        (st\<lparr>presentationOutline := pages, imageCount := int (length pages), step := 2\<rparr>, None))"
  by (auto simp: csvOnLoad_def Let_def split: list.splits sum.splits)

text \<open>
  The specification's header example: the header row is dropped and one page is made.
\<close>

lemma header_example:
  "handleCsvUpload asciiLower nearestNumber INITIAL_STATE
     (Some (SLIDE_JA @ [0x756A, 0x53F7, COMMA] @ TITLE_JA @ [COMMA, 0x672C, 0x6587, LF] @
        ascii ''1,Intro,Welcome'')) =
   (INITIAL_STATE\<lparr>presentationOutline :=
      [\<lparr>pageNumber = Finite 1, title = ascii ''Intro'', content = ascii ''Welcome'',
        visualCue = [], emphasis = [], mood = []\<rparr>],
      imageCount := 1, step := 2\<rparr>, None)"
  by (simp add: parse_defs handler_defs int_defs)

section \<open>Accepted rows\<close>

text \<open>
  C1, amended. A row is accepted into the outline exactly when its derived title or its
  derived content is non-empty as it stands, before trimming; the page then stores the
  trimmed title and content. So the titles and contents of the outline built from the
  rows are the trimmed titles and contents of the rows that pass this test, in order;
  in particular a row all of whose fields are empty contributes no page.
\<close>

theorem C1_accepted_iff_raw_nonempty:
  "map (\<lambda>p. (title p, content p)) (buildLoop big rs acc) =
     map (\<lambda>p. (title p, content p)) acc @
     map (\<lambda>cols. (trim (derivedTitle cols), trim (derivedContent cols)))
       (filter (\<lambda>cols. derivedTitle cols \<noteq> [] \<or> derivedContent cols \<noteq> []) rs)
   \<and> ((\<forall>f \<in> set cols. f = []) \<longrightarrow> processRow big cols acc = acc)"
  using buildLoop_titles derived_all_empty by (simp add: processRow_derived)

theorem C1_accepted_iff_raw_nonempty_witness:
  "map (\<lambda>p. (title p, content p)) (buildLoop nearestNumber [[[]], [ascii ''a'', ascii '' b'']] []) =
     [(ascii ''a'', ascii ''b'')]
   \<and> set [[], []] = {[] :: jsstring} \<and> processRow nearestNumber [[], []] [] = []"
  using C1_accepted_iff_raw_nonempty[of nearestNumber "[[[]], [ascii ''a'', ascii '' b'']]" "[]" "[[], []]"]
  by (simp add: derivedTitle_def derivedContent_def trim_def ascii_def isWhiteSpace_def)

text \<open>
  C1 as stated fails on a row of two fields of one space each: the row is accepted, and
  its page has an empty title and an empty content. The text \<open> , \<close> installs that
  outline.
\<close>

theorem C1_whitespace_row_counterexample:
  "buildLoop nearestNumber [[ascii '' '', ascii '' '']] [] =
     [\<lparr>pageNumber = Finite 1, title = [], content = [], visualCue = [], emphasis = [], mood = []\<rparr>]
   \<and> handleCsvUpload asciiLower nearestNumber INITIAL_STATE (Some (ascii '' , '')) =
     (INITIAL_STATE\<lparr>presentationOutline :=
        [\<lparr>pageNumber = Finite 1, title = [], content = [], visualCue = [], emphasis = [], mood = []\<rparr>],
        imageCount := 1, step := 2\<rparr>, None)"
  by (simp add: parse_defs handler_defs isWhiteSpace_def)

section \<open>Header detection\<close>

text \<open>
  C2 does not hold of the code. A first row of a single field without the slide marker
  makes \<open>header[1]\<close> undefined: the test throws, the \<open>catch\<close> block alerts
  \<open>ReadFailed\<close>, and no outline is made, although the loop has a branch for rows of
  one field. And a first field \<open>No\<close> is not taken as a header, although the comment
  of line 166 names it: \<open>startIndex\<close> stays 0.
\<close>

theorem C2_header_detection_failing_input:
  "handleCsvUpload asciiLower nearestNumber INITIAL_STATE (Some (ascii ''Only content line'')) =
     (INITIAL_STATE, Some ReadFailed)
   \<and> detectHeader asciiLower [ascii ''Only content line''] = Inl TypeError
   \<and> detectHeader asciiLower [ascii ''No'', ascii ''Heading''] = Inr 0"
  by (simp add: parse_defs handler_defs)

section \<open>Page numbers\<close>

lemma parseInt_small:
  "mathInt f = Some n \<Longrightarrow> \<bar>n\<bar> \<le> 2 ^ 53 \<Longrightarrow> parseInt big f = Finite n"
  by (simp add: parseInt_def)

lemma parseInt_none: "mathInt f = None \<Longrightarrow> parseInt big f = NaN"
  by (simp add: parseInt_def)

text \<open>
  C3, amended. For a row of at least three fields that is accepted, the page number is
  the Number \<open>parseInt\<close> returns for field 0 when that Number is neither \<open>NaN\<close> nor
  zero, negative values included, and otherwise the number of pages accepted so far
  plus one. When field 0 has no digits to read, the page number is that position; when
  the integer read has magnitude at most \<open>2^53\<close>, the page number is that integer if it
  is not zero and the position if it is; beyond \<open>2^53\<close> it is what the runtime rounds
  the integer to. So every page the handler installs has a page number that is
  neither \<open>NaN\<close> nor zero.
\<close>

theorem C3_page_number_nonzero:
  "(length cols \<ge> 3 \<and> (cols ! 1 \<noteq> [] \<or> cols ! 2 \<noteq> []) \<longrightarrow>
      (\<exists>p. processRow big cols acc = acc @ [p] \<and>
           pageNumber p =
             (if truthy (parseInt big (cols ! 0)) then parseInt big (cols ! 0)
              else Finite (int (length acc) + 1)) \<and>
           (case mathInt (cols ! 0) of
              None \<Rightarrow> pageNumber p = Finite (int (length acc) + 1)
            | Some n \<Rightarrow>
                \<bar>n\<bar> \<le> 2 ^ 53 \<longrightarrow>
                pageNumber p = Finite (if n \<noteq> 0 then n else int (length acc) + 1))))
   \<and> (\<forall>p \<in> set (presentationOutline (fst (handleCsvUpload lc big st file))).
         p \<in> set (presentationOutline st) \<or> truthy (pageNumber p))"
proof -
  have "\<forall>p \<in> set (buildLoop big rs []). truthy (pageNumber p)" for rs
    by (rule buildLoop_truthy) simp
  then have "\<forall>p \<in> set (presentationOutline (fst (csvOnLoad lc big st input))).
         p \<in> set (presentationOutline st) \<or> truthy (pageNumber p)" for input
    using csvOnLoad_cases[of lc big st input] by auto
  then have handler: "\<forall>p \<in> set (presentationOutline (fst (handleCsvUpload lc big st file))).
         p \<in> set (presentationOutline st) \<or> truthy (pageNumber p)"
    by (auto simp: handleCsvUpload_def split: option.splits)
  have row: "(case mathInt (cols ! 0) of
        None \<Rightarrow> orElse (parseInt big (cols ! 0)) d = d
      | Some n \<Rightarrow> \<bar>n\<bar> \<le> 2 ^ 53 \<longrightarrow>
          orElse (parseInt big (cols ! 0)) d = (if n \<noteq> 0 then Finite n else d))" for d
    by (auto simp: parseInt_small parseInt_none orElse_def truthy_def split: option.splits)
  show ?thesis
    using handler row[of "Finite (int (length acc) + 1)"]
    by (auto simp: processRow_def orElse_def Let_def split: option.splits)
qed

theorem C3_page_number_nonzero_witness:
  "mathInt (ascii ''5'') = Some 5 \<and> \<bar>5 :: int\<bar> \<le> 2 ^ 53 \<and>
   mathInt (ascii ''0'') = Some 0 \<and> mathInt (ascii ''x'') = None \<and>
   processRow nearestNumber [ascii ''5'', ascii ''Foo'', ascii ''Bar''] [] =
     [\<lparr>pageNumber = Finite 5, title = ascii ''Foo'', content = ascii ''Bar'',
       visualCue = [], emphasis = [], mood = []\<rparr>] \<and>
   map pageNumber (presentationOutline (fst (handleCsvUpload asciiLower nearestNumber INITIAL_STATE
      (Some (ascii ''0,A,B\<newline>x,C,D\<newline>7,E,F''))))) = [Finite 1, Finite 2, Finite 7]"
  using C3_page_number_nonzero[of "[ascii ''5'', ascii ''Foo'', ascii ''Bar'']" nearestNumber "[]"
      asciiLower INITIAL_STATE "Some (ascii ''0,A,B\<newline>x,C,D\<newline>7,E,F'')"]
  by (simp add: parse_defs handler_defs int_defs)

text \<open>
  C3 as stated fails on the text \<open>-3,Foo,Bar\<close>: the parse succeeds with the value -3,
  which is truthy, and the page keeps the number -3.
\<close>

theorem C3_negative_page_number_counterexample:
  "handleCsvUpload asciiLower nearestNumber INITIAL_STATE (Some (ascii ''-3,Foo,Bar'')) =
     (INITIAL_STATE\<lparr>presentationOutline :=
        [\<lparr>pageNumber = Finite (- 3), title = ascii ''Foo'', content = ascii ''Bar'',
          visualCue = [], emphasis = [], mood = []\<rparr>],
        imageCount := 1, step := 2\<rparr>, None)"
  by (simp add: parse_defs handler_defs int_defs)

text \<open>
  Beyond \<open>2^53\<close> the page number is the runtime's rounding: with \<open>nearestNumber\<close>, the
  field \<open>9007199254740993\<close> gives the page number 9007199254740992.
\<close>

lemma bitLength_eq:
  "2 ^ k \<le> n \<Longrightarrow> n < 2 ^ Suc k \<Longrightarrow> bitLength n = Suc k"
proof (induction k arbitrary: n)
  case 0
  then have "n = 1" by simp
  then show ?case by (simp add: bitLength.simps[of "Suc 0"] bitLength.simps[of 0])
next
  case (Suc k)
  have "2 ^ k \<le> n div 2" "n div 2 < 2 ^ Suc k"
    using Suc.prems by auto
  then have "bitLength (n div 2) = Suc k" by (rule Suc.IH)
  moreover have "(0::nat) < 2 ^ Suc k" by simp
  then have "n \<noteq> 0" using Suc.prems(1) by linarith
  ultimately show ?case by (simp add: bitLength.simps[of n])
qed

lemma bitLength_example: "bitLength 9007199254740993 = 54"
  by (rule bitLength_eq[of 53, simplified]) simp_all

lemma roundToDouble_example: "roundToDouble 9007199254740993 = Finite 9007199254740992"
  by (simp add: roundToDouble_def Let_def bitLength_example)

lemma big_page_number_example:
  "processRow nearestNumber [ascii ''9007199254740993'', ascii ''T'', ascii ''C''] [] =
     [\<lparr>pageNumber = Finite 9007199254740992, title = ascii ''T'', content = ascii ''C'',
       visualCue = [], emphasis = [], mood = []\<rparr>]"
  by (simp add: processRow_def trim_def ascii_def int_defs nearestNumber_def
      roundToDouble_example)

section \<open>No valid data\<close>

text \<open>
  C4, amended. When the text is not empty, tokenizes to at least one row, the header
  test completes, and no data row has a non-empty title or content, the handler alerts
  \<open>NoValidData\<close> and leaves the state as it was. When the text tokenizes to no row, the
  handler returns without any message, the state as it was. Whenever a message is
  alerted the state is unchanged.
\<close>

theorem C4_no_valid_data:
  "(input \<noteq> [] \<and> parseCSV input = row0 # others \<and> detectHeader lc row0 = Inr k \<and>
    (\<forall>cols \<in> set (drop k (row0 # others)). derivedTitle cols = [] \<and> derivedContent cols = [])
    \<longrightarrow> handleCsvUpload lc big st (Some input) = (st, Some NoValidData))
   \<and> (parseCSV input = [] \<longrightarrow> handleCsvUpload lc big st (Some input) = (st, None))
   \<and> (snd (handleCsvUpload lc big st file) \<noteq> None \<longrightarrow> fst (handleCsvUpload lc big st file) = st)"
proof -
  have "snd (csvOnLoad lc big st t) \<noteq> None \<longrightarrow> fst (csvOnLoad lc big st t) = st" for t
    using csvOnLoad_cases[of lc big st t] by auto
  then have "snd (handleCsvUpload lc big st file) \<noteq> None \<longrightarrow> fst (handleCsvUpload lc big st file) = st"
    by (simp add: handleCsvUpload_def split: option.splits)
  then show ?thesis
    by (simp add: handleCsvUpload_def csvOnLoad_def buildLoop_empty_iff)
qed

theorem C4_no_valid_data_witness:
  "ascii '','' \<noteq> [] \<and> parseCSV (ascii '','') = [[[], []]] \<and>
   detectHeader asciiLower [[], []] = Inr 0 \<and>
   derivedTitle [[], []] = [] \<and> derivedContent [[], []] = [] \<and>
   handleCsvUpload asciiLower nearestNumber INITIAL_STATE (Some (ascii '','')) = (INITIAL_STATE, Some NoValidData)"
  using C4_no_valid_data[of "ascii '',''" "[[], []]" "[]" asciiLower 0 nearestNumber INITIAL_STATE
      "Some (ascii '','')"]
  by (simp add: parse_defs detectHeader_def SLIDE_JA_def TITLE_JA_def asciiLower_def
      derivedTitle_def derivedContent_def)

text \<open>
  C4 as stated fails on the text \<open>""\<close> of two quote characters: it tokenizes to no row,
  so no page is made, and the handler returns by the guard of line 163 with no message.
  On the text of one blank line, the claim's own example, the message alerted is the
  one of the \<open>catch\<close> block, not the one for no valid data.
\<close>

theorem C4_no_rows_silent_counterexample:
  "parseCSV [QUOTE, QUOTE] = [] \<and>
   handleCsvUpload asciiLower nearestNumber INITIAL_STATE (Some [QUOTE, QUOTE]) = (INITIAL_STATE, None) \<and>
   handleCsvUpload asciiLower nearestNumber INITIAL_STATE (Some [LF]) = (INITIAL_STATE, Some ReadFailed)"
  by (simp add: parse_defs handler_defs)

section \<open>Empty text\<close>

text \<open>
  C10. On the empty text the handler returns at once (line 159): no message, and the
  state as it was, whatever the state and the lower-casing function.
\<close>

theorem C10_empty_text_noop:
  "handleCsvUpload lc big st (Some []) = (st, None)"
  by (simp add: handleCsvUpload_def csvOnLoad_def)

end
